theory Spec2Isabelle
  imports Complex_Main "HOL-Library.AList" "HOL-Library.Sublist"
begin

section \<open>Python values, exceptions and strings\<close>

text \<open>
  The request handlers of \<^verbatim>\<open>backend/server/common/rest.py\<close> are embedded as HOL
  functions. A handler either returns a response or raises; a raised exception is the
  \<open>Inl\<close> of a sum, so every \<^verbatim>\<open>raise\<close>, every failing built-in and every
  \<^verbatim>\<open>abort\<close> of the source is a branch of the model.

  The exception classes are distinct constructors. The classes of
  \<^verbatim>\<open>backend.common.errors\<close> are taken to be unrelated to the built-in ones
  (a \<^verbatim>\<open>FilterError\<close> is not a \<^verbatim>\<open>ValueError\<close>), which is what the
  separate \<^verbatim>\<open>except\<close> clauses of the source treat them as.
  \<^verbatim>\<open>abort(code)\<close> raises an \<open>HTTPException\<close> carrying the status.
\<close>

datatype HTTPStatus =
    OK | BAD_REQUEST | NOT_FOUND | NOT_ACCEPTABLE | UNSUPPORTED_MEDIA_TYPE | NOT_IMPLEMENTED

fun status_code :: "HTTPStatus \<Rightarrow> nat" where
  "status_code OK = 200"
| "status_code BAD_REQUEST = 400"
| "status_code NOT_FOUND = 404"
| "status_code NOT_ACCEPTABLE = 406"
| "status_code UNSUPPORTED_MEDIA_TYPE = 415"
| "status_code NOT_IMPLEMENTED = 501"

datatype exn =
    FilterError string
  | ValueError string
  | KeyError string
  | IndexError
  | TypeError
  | AttributeError
  | OSError
  | NotImplementedError
  | DisabledFeatureError
  | ExceedsLimitError
  | JSONEncodingValueError
  | UnsupportedSummaryMethod
  | HTTPException HTTPStatus

text \<open>\<^verbatim>\<open>str.split(sep)\<close> for a one-character separator: never empty.\<close>

fun str_split :: "char \<Rightarrow> string \<Rightarrow> string list" where
  "str_split sep [] = [[]]"
| "str_split sep (c # cs) =
     (if c = sep then [] # str_split sep cs
      else (case str_split sep cs of
              [] \<Rightarrow> [[c]]
            | p # ps \<Rightarrow> (c # p) # ps))"

section \<open>The filter parser\<close>

text \<open>
  \<^verbatim>\<open>_query_parameter_to_filter(args)\<close>. The argument is a werkzeug multi-dict;
  \<^verbatim>\<open>args.items(multi=True)\<close> yields its (key, value) pairs in order, so \<open>args\<close>
  is a list of pairs of strings.

  \<^verbatim>\<open>current\<close> is a dict with the keys \<^verbatim>\<open>name\<close>, \<^verbatim>\<open>values\<close>,
  \<^verbatim>\<open>min\<close>, \<^verbatim>\<open>max\<close>, of which \<^verbatim>\<open>name\<close> is always there: a record
  with three optional fields. \<^verbatim>\<open>filters[axis]\<close> is a dict from the field name to
  its \<^verbatim>\<open>current\<close>, in insertion order: an association list, where
  \<open>AList.update\<close> replaces an entry in place and appends a new key at the end.
  The source mutates \<^verbatim>\<open>current\<close> through the reference it got from
  \<^verbatim>\<open>setdefault\<close>; the model writes the entry back.

  \<^verbatim>\<open>url_unquote\<close> (werkzeug) and \<^verbatim>\<open>float\<close> (built-in) are parameters.
  \<open>float s\<close> is \<open>Inl m\<close> when Python raises \<^verbatim>\<open>ValueError(m)\<close>.
\<close>

record 'f field_filter =
  name :: string
  values_f :: "string list option"
  min_f :: "'f option"
  max_f :: "'f option"

type_synonym 'f axis_dict = "(string \<times> 'f field_filter) list"

record 'f filters =
  obs :: "'f axis_dict"
  var :: "'f axis_dict"

record 'f axis_filter =
  annotation_value :: "'f field_filter list"

definition get_axis :: "'f filters \<Rightarrow> string \<Rightarrow> 'f axis_dict" where
  "get_axis filters axis = (if axis = ''obs'' then obs filters else var filters)"

definition set_axis :: "'f filters \<Rightarrow> string \<Rightarrow> 'f axis_dict \<Rightarrow> 'f filters" where
  "set_axis filters axis d =
     (if axis = ''obs'' then filters\<lparr>obs := d\<rparr> else filters\<lparr>var := d\<rparr>)"

text \<open>\<^verbatim>\<open>len(current)\<close>: the number of keys of the dict.\<close>

definition len_current :: "'f field_filter \<Rightarrow> nat" where
  "len_current current =
     1 + (if values_f current = None then 0 else 1)
       + (if min_f current = None then 0 else 1)
       + (if max_f current = None then 0 else 1)"

text \<open>\<^verbatim>\<open>filters[axis].setdefault(name, {"name": name})\<close>: the entry read.\<close>

definition setdefault_current :: "'f axis_dict \<Rightarrow> string \<Rightarrow> 'f field_filter" where
  "setdefault_current d nm =
     (case map_of d nm of
        Some current \<Rightarrow> current
      | None \<Rightarrow> \<lparr>name = nm, values_f = None, min_f = None, max_f = None\<rparr>)"

text \<open>\<^verbatim>\<open>if bound != "*": current[key] = float(bound)\<close>, for one end of a range.\<close>

definition set_bound ::
  "(string \<Rightarrow> string + 'f) \<Rightarrow> string \<Rightarrow> ('f option \<Rightarrow> 'f field_filter \<Rightarrow> 'f field_filter)
     \<Rightarrow> 'f field_filter \<Rightarrow> exn + 'f field_filter" where
  "set_bound float bound upd current =
     (if bound \<noteq> ''*'' then
        (case float bound of
           Inl m \<Rightarrow> Inl (ValueError m)
         | Inr x \<Rightarrow> Inr (upd (Some x) current))
      else Inr current)"

text \<open>The branch \<^verbatim>\<open>len(val_split) == 1\<close>.\<close>

definition value_branch ::
  "(string \<Rightarrow> string) \<Rightarrow> string \<Rightarrow> 'f field_filter \<Rightarrow> exn + 'f field_filter" where
  "value_branch url_unquote v current =
     (if min_f current \<noteq> None \<or> max_f current \<noteq> None then
        Inl (FilterError ''do not mix range and value filters'')
      else
        Inr (current\<lparr>values_f :=
               Some ((case values_f current of None \<Rightarrow> [] | Some vs \<Rightarrow> vs) @ [url_unquote v])\<rparr>))"

text \<open>The branch \<^verbatim>\<open>len(val_split) == 2\<close>.\<close>

definition range_branch ::
  "(string \<Rightarrow> string) \<Rightarrow> (string \<Rightarrow> string + 'f) \<Rightarrow> string \<Rightarrow> string
     \<Rightarrow> 'f field_filter \<Rightarrow> exn + 'f field_filter" where
  "range_branch url_unquote float lo hi current =
     (if len_current current > 1 then Inl (FilterError ''duplicate range specification'')
      else
        (case set_bound float (url_unquote lo) (\<lambda>x c. c\<lparr>min_f := x\<rparr>) current of
           Inl e \<Rightarrow> Inl e
         | Inr c1 \<Rightarrow>
             (case set_bound float (url_unquote hi) (\<lambda>x c. c\<lparr>max_f := x\<rparr>) c1 of
                Inl e \<Rightarrow> Inl e
              | Inr c2 \<Rightarrow>
                  if len_current c2 < 2 then
                    Inl (FilterError ''must specify at least min or max in range filter'')
                  else Inr c2)))"

text \<open>
  One iteration of the loop. Unpacking \<^verbatim>\<open>axis, name = key.split(":")\<close> raises
  \<^verbatim>\<open>ValueError\<close> unless the key has exactly two parts.
\<close>

definition unpack_error :: "string list \<Rightarrow> exn" where
  "unpack_error parts =
     (if length parts < 2 then ValueError ''not enough values to unpack (expected 2, got 1)''
      else ValueError ''too many values to unpack (expected 2)'')"

definition filter_item ::
  "(string \<Rightarrow> string) \<Rightarrow> (string \<Rightarrow> string + 'f) \<Rightarrow> 'f filters \<Rightarrow> string \<times> string
     \<Rightarrow> exn + 'f filters" where
  "filter_item url_unquote float filters kv =
     (case str_split CHR '':'' (fst kv) of
        [axis, name0] \<Rightarrow>
          if axis \<noteq> ''obs'' \<and> axis \<noteq> ''var'' then Inl (FilterError ''unknown filter axis'')
          else
            let nm = url_unquote name0;
                d = get_axis filters axis;
                current = setdefault_current d nm;
                val_split = str_split CHR '','' (snd kv);
                r = (if length val_split = 1 then value_branch url_unquote (snd kv) current
                     else if length val_split = 2 then
                       range_branch url_unquote float (val_split ! 0) (val_split ! 1) current
                     else Inl (FilterError ''badly formated filter value''))
            in (case r of
                  Inl e \<Rightarrow> Inl e
                | Inr current' \<Rightarrow> Inr (set_axis filters axis (AList.update nm current' d)))
      | parts \<Rightarrow> Inl (unpack_error parts))"

fun filter_loop ::
  "(string \<Rightarrow> string) \<Rightarrow> (string \<Rightarrow> string + 'f) \<Rightarrow> 'f filters \<Rightarrow> (string \<times> string) list
     \<Rightarrow> exn + 'f filters" where
  "filter_loop url_unquote float filters [] = Inr filters"
| "filter_loop url_unquote float filters (kv # args) =
     (case filter_item url_unquote float filters kv of
        Inl e \<Rightarrow> Inl e
      | Inr filters' \<Rightarrow> filter_loop url_unquote float filters' args)"

text \<open>
  The result dict, keyed by axis in the order \<^verbatim>\<open>("obs", "var")\<close>; an axis with no
  field is left out.
\<close>

definition filter_result :: "'f filters \<Rightarrow> (string \<times> 'f axis_filter) list" where
  "filter_result filters =
     concat (map (\<lambda>axis.
        let axis_filter = get_axis filters axis
        in if length axis_filter > 0
           then [(axis, \<lparr>annotation_value = map snd axis_filter\<rparr>)] else [])
      [''obs'', ''var''])"

definition query_parameter_to_filter ::
  "(string \<Rightarrow> string) \<Rightarrow> (string \<Rightarrow> string + 'f) \<Rightarrow> (string \<times> string) list
     \<Rightarrow> exn + (string \<times> 'f axis_filter) list" where
  "query_parameter_to_filter url_unquote float args =
     (case filter_loop url_unquote float \<lparr>obs = [], var = []\<rparr> args of
        Inl (ValueError m) \<Rightarrow> Inl (FilterError m)
      | Inl e \<Rightarrow> Inl e
      | Inr filters \<Rightarrow> Inr (filter_result filters))"

subsection \<open>Malformed parameters and the state of a field\<close>

text \<open>
  The four ways a single parameter can be malformed, as predicates on the
  (key, value) pair, and what a field of \<^verbatim>\<open>filters\<close> holds so far.
\<close>

definition bad_key :: "string \<times> string \<Rightarrow> bool" where
  "bad_key kv = (length (str_split CHR '':'' (fst kv)) \<noteq> 2)"

definition unknown_axis :: "string \<times> string \<Rightarrow> bool" where
  "unknown_axis kv =
     (case str_split CHR '':'' (fst kv) of
        [axis, name0] \<Rightarrow> axis \<noteq> ''obs'' \<and> axis \<noteq> ''var''
      | _ \<Rightarrow> False)"

definition bad_segment_count :: "string \<times> string \<Rightarrow> bool" where
  "bad_segment_count kv =
     (length (str_split CHR '','' (snd kv)) \<noteq> 1 \<and> length (str_split CHR '','' (snd kv)) \<noteq> 2)"

definition not_numeric :: "(string \<Rightarrow> string) \<Rightarrow> (string \<Rightarrow> string + 'f) \<Rightarrow> string \<Rightarrow> bool" where
  "not_numeric url_unquote float bound = (url_unquote bound \<noteq> ''*'' \<and> isl (float (url_unquote bound)))"

definition bad_endpoint ::
  "(string \<Rightarrow> string) \<Rightarrow> (string \<Rightarrow> string + 'f) \<Rightarrow> string \<times> string \<Rightarrow> bool" where
  "bad_endpoint url_unquote float kv =
     (case str_split CHR '','' (snd kv) of
        [lo, hi] \<Rightarrow> not_numeric url_unquote float lo \<or> not_numeric url_unquote float hi
      | _ \<Rightarrow> False)"

definition malformed ::
  "(string \<Rightarrow> string) \<Rightarrow> (string \<Rightarrow> string + 'f) \<Rightarrow> string \<times> string \<Rightarrow> bool" where
  "malformed url_unquote float kv =
     (bad_key kv \<or> unknown_axis kv \<or> bad_segment_count kv \<or> bad_endpoint url_unquote float kv)"

definition holds_range :: "'f filters \<Rightarrow> string \<Rightarrow> string \<Rightarrow> bool" where
  "holds_range filters axis nm =
     (case map_of (get_axis filters axis) nm of
        None \<Rightarrow> False
      | Some current \<Rightarrow> min_f current \<noteq> None \<or> max_f current \<noteq> None)"

definition holds_values :: "'f filters \<Rightarrow> string \<Rightarrow> string \<Rightarrow> bool" where
  "holds_values filters axis nm =
     (case map_of (get_axis filters axis) nm of
        None \<Rightarrow> False
      | Some current \<Rightarrow> values_f current \<noteq> None)"

text \<open>The (axis, field) pair a parameter key addresses.\<close>

definition key_field :: "(string \<Rightarrow> string) \<Rightarrow> string \<Rightarrow> (string \<times> string) option" where
  "key_field url_unquote key =
     (case str_split CHR '':'' key of
        [axis, name0] \<Rightarrow>
          if axis = ''obs'' \<or> axis = ''var'' then Some (axis, url_unquote name0) else None
      | _ \<Rightarrow> None)"

definition segments :: "string \<Rightarrow> nat" where
  "segments v = length (str_split CHR '','' v)"

text \<open>
  A sample \<^verbatim>\<open>float\<close> for the concrete instances below: Python's value on a
  plain string of decimal digits, and the \<^verbatim>\<open>ValueError\<close> of a string that is no
  number, such as one with a letter in it.
\<close>

definition digit_of :: "char \<Rightarrow> nat option" where
  "digit_of c =
     (if c \<in> set ''0123456789'' then Some (of_char c - of_char CHR ''0'') else None)"

fun digits_value :: "nat \<Rightarrow> string \<Rightarrow> nat option" where
  "digits_value acc [] = Some acc"
| "digits_value acc (c # cs) =
     (case digit_of c of None \<Rightarrow> None | Some d \<Rightarrow> digits_value (10 * acc + d) cs)"

definition float_digits :: "string \<Rightarrow> string + real" where
  "float_digits s =
     (case (if s = [] then None else digits_value 0 s) of
        Some n \<Rightarrow> Inr (real n)
      | None \<Rightarrow> Inl ''could not convert string to float'')"

subsection \<open>Properties of the filter parser\<close>

lemma str_split_nonempty: "str_split c s \<noteq> []"
  by (induction s) (auto split: list.splits)

lemma set_bound_error:
  "set_bound float b upd c = Inl e \<Longrightarrow> \<exists>m. e = ValueError m"
  by (auto simp: set_bound_def split: if_splits sum.splits)

lemma range_branch_error:
  "range_branch u float lo hi c = Inl e \<Longrightarrow> (\<exists>m. e = FilterError m) \<or> (\<exists>m. e = ValueError m)"
  by (auto simp: range_branch_def split: if_splits sum.splits dest: set_bound_error)

lemma value_branch_error:
  "value_branch u v c = Inl e \<Longrightarrow> (\<exists>m. e = FilterError m)"
  by (auto simp: value_branch_def split: if_splits)

lemma filter_item_error:
  "filter_item u float filters kv = Inl e \<Longrightarrow> (\<exists>m. e = FilterError m) \<or> (\<exists>m. e = ValueError m)"
  unfolding filter_item_def Let_def
  by (auto simp: unpack_error_def split: list.splits if_splits sum.splits
           dest: range_branch_error value_branch_error)

lemma filter_loop_error:
  "filter_loop u float filters args = Inl e \<Longrightarrow> (\<exists>m. e = FilterError m) \<or> (\<exists>m. e = ValueError m)"
  by (induction args arbitrary: filters) (auto split: sum.splits dest: filter_item_error)

lemma query_total:
  "(\<exists>r. query_parameter_to_filter u float args = Inr r) \<or>
   (\<exists>m. query_parameter_to_filter u float args = Inl (FilterError m))"
proof (cases "filter_loop u float \<lparr>obs = [], var = []\<rparr> args")
  case (Inl e)
  from filter_loop_error[OF Inl] show ?thesis
    by (auto simp: query_parameter_to_filter_def Inl)
next
  case (Inr fs)
  then show ?thesis by (simp add: query_parameter_to_filter_def)
qed

lemma query_fails_iff:
  "isl (query_parameter_to_filter u float args) = isl (filter_loop u float \<lparr>obs = [], var = []\<rparr> args)"
  by (auto simp: query_parameter_to_filter_def split: sum.splits exn.splits)

lemma range_branch_bad_endpoint:
  "not_numeric u float lo \<or> not_numeric u float hi \<Longrightarrow> isl (range_branch u float lo hi c)"
  by (auto simp: range_branch_def not_numeric_def set_bound_def isl_def split: sum.splits)

lemma filter_item_Inr:
  assumes "filter_item u float filters kv = Inr fs'"
  obtains axis name0 c' where
    "str_split CHR '':'' (fst kv) = [axis, name0]"
    "axis = ''obs'' \<or> axis = ''var''"
    "(length (str_split CHR '','' (snd kv)) = 1 \<and>
        value_branch u (snd kv) (setdefault_current (get_axis filters axis) (u name0)) = Inr c') \<or>
     (length (str_split CHR '','' (snd kv)) = 2 \<and>
        range_branch u float (str_split CHR '','' (snd kv) ! 0) (str_split CHR '','' (snd kv) ! 1)
          (setdefault_current (get_axis filters axis) (u name0)) = Inr c')"
    "fs' = set_axis filters axis (AList.update (u name0) c' (get_axis filters axis))"
proof -
  from assms obtain axis name0 where k: "str_split CHR '':'' (fst kv) = [axis, name0]"
    by (auto simp: filter_item_def split: list.splits)
  from assms k have ax: "axis = ''obs'' \<or> axis = ''var''"
    by (auto simp: filter_item_def split: if_splits)
  show thesis
    using assms k ax that[OF k ax]
    by (auto simp: filter_item_def Let_def split: if_splits sum.splits)
qed

lemma filter_item_malformed:
  assumes "malformed u float kv"
  shows "isl (filter_item u float filters kv)"
proof (cases "filter_item u float filters kv")
  case (Inl e)
  then show ?thesis by simp
next
  case (Inr fs')
  then obtain axis name0 c' where
    k: "str_split CHR '':'' (fst kv) = [axis, name0]" and
    ax: "axis = ''obs'' \<or> axis = ''var''" and
    br: "(length (str_split CHR '','' (snd kv)) = 1 \<and>
        value_branch u (snd kv) (setdefault_current (get_axis filters axis) (u name0)) = Inr c') \<or>
     (length (str_split CHR '','' (snd kv)) = 2 \<and>
        range_branch u float (str_split CHR '','' (snd kv) ! 0) (str_split CHR '','' (snd kv) ! 1)
          (setdefault_current (get_axis filters axis) (u name0)) = Inr c')"
    by (rule filter_item_Inr)
  from k have "\<not> bad_key kv" by (simp add: bad_key_def)
  moreover from k ax have "\<not> unknown_axis kv" by (auto simp: unknown_axis_def)
  moreover from br have "\<not> bad_segment_count kv" by (auto simp: bad_segment_count_def)
  moreover have "\<not> bad_endpoint u float kv"
  proof
    assume "bad_endpoint u float kv"
    then obtain lo hi where s: "str_split CHR '','' (snd kv) = [lo, hi]"
      and n: "not_numeric u float lo \<or> not_numeric u float hi"
      by (auto simp: bad_endpoint_def split: list.splits)
    from range_branch_bad_endpoint[OF n, of "setdefault_current (get_axis filters axis) (u name0)"] br s
    show False by auto
  qed
  ultimately show ?thesis using assms by (simp add: malformed_def)
qed

lemma filter_loop_malformed:
  "kv \<in> set args \<Longrightarrow> malformed u float kv \<Longrightarrow> isl (filter_loop u float filters args)"
proof (induction args arbitrary: filters)
  case Nil
  then show ?case by simp
next
  case (Cons a args)
  show ?case
  proof (cases "filter_item u float filters a")
    case (Inl e)
    then show ?thesis by simp
  next
    case (Inr fs)
    with Cons filter_item_malformed[of u float a filters] show ?thesis by auto
  qed
qed

lemma get_set_axis:
  "a = ''obs'' \<or> a = ''var'' \<Longrightarrow> b = ''obs'' \<or> b = ''var'' \<Longrightarrow>
   get_axis (set_axis fs a d) b = (if a = b then d else get_axis fs b)"
  by (auto simp: get_axis_def set_axis_def)

lemma key_field_Some:
  "key_field u k = Some (axis, nm) \<Longrightarrow>
   \<exists>name0. str_split CHR '':'' k = [axis, name0] \<and> (axis = ''obs'' \<or> axis = ''var'') \<and> u name0 = nm"
  by (auto simp: key_field_def split: list.splits if_splits)

lemma key_field_None: "key_field u (fst kv) = None \<Longrightarrow> malformed u float kv"
  by (auto simp: key_field_def malformed_def bad_key_def unknown_axis_def split: list.splits if_splits)

lemma value_on_range:
  assumes "holds_range filters axis nm" "key_field u (fst kv) = Some (axis, nm)" "segments (snd kv) = 1"
  shows "filter_item u float filters kv = Inl (FilterError ''do not mix range and value filters'')"
proof -
  from key_field_Some[OF assms(2)] obtain name0 where
    k: "str_split CHR '':'' (fst kv) = [axis, name0]" and ax: "axis = ''obs'' \<or> axis = ''var''"
    and n: "u name0 = nm" by blast
  from assms(1) obtain c where c: "map_of (get_axis filters axis) nm = Some c"
    and r: "min_f c \<noteq> None \<or> max_f c \<noteq> None"
    by (auto simp: holds_range_def split: option.splits)
  have "setdefault_current (get_axis filters axis) nm = c"
    by (simp add: setdefault_current_def c)
  with r have "value_branch u (snd kv) (setdefault_current (get_axis filters axis) nm)
      = Inl (FilterError ''do not mix range and value filters'')"
    by (auto simp: value_branch_def)
  with k ax n assms(3) show ?thesis
    by (auto simp: filter_item_def Let_def segments_def)
qed

lemma range_on_values:
  assumes "holds_values filters axis nm" "key_field u (fst kv) = Some (axis, nm)" "segments (snd kv) = 2"
  shows "filter_item u float filters kv = Inl (FilterError ''duplicate range specification'')"
proof -
  from key_field_Some[OF assms(2)] obtain name0 where
    k: "str_split CHR '':'' (fst kv) = [axis, name0]" and ax: "axis = ''obs'' \<or> axis = ''var''"
    and n: "u name0 = nm" by blast
  from assms(1) obtain c where c: "map_of (get_axis filters axis) nm = Some c"
    and r: "values_f c \<noteq> None"
    by (auto simp: holds_values_def split: option.splits)
  have "setdefault_current (get_axis filters axis) nm = c"
    by (simp add: setdefault_current_def c)
  with r have "range_branch u float lo hi (setdefault_current (get_axis filters axis) nm)
      = Inl (FilterError ''duplicate range specification'')" for lo hi
    by (auto simp: range_branch_def len_current_def)
  with k ax n assms(3) show ?thesis
    by (auto simp: filter_item_def Let_def segments_def)
qed

lemma value_branch_Inr:
  "value_branch u v c = Inr c' \<Longrightarrow> values_f c' \<noteq> None \<and> min_f c' = None \<and> max_f c' = None"
  by (auto simp: value_branch_def split: if_splits)

lemma set_bound_min:
  "set_bound float b (\<lambda>x c. c\<lparr>min_f := x\<rparr>) c = Inr c' \<Longrightarrow>
     values_f c' = values_f c \<and> max_f c' = max_f c \<and> (min_f c = None \<and> min_f c' = None \<longrightarrow> c' = c)"
  by (auto simp: set_bound_def split: if_splits sum.splits)

lemma set_bound_max:
  "set_bound float b (\<lambda>x c. c\<lparr>max_f := x\<rparr>) c = Inr c' \<Longrightarrow>
     values_f c' = values_f c \<and> min_f c' = min_f c"
  by (auto simp: set_bound_def split: if_splits sum.splits)

lemma range_branch_Inr:
  assumes "range_branch u float lo hi c = Inr c'"
  shows "values_f c = None \<and> values_f c' = None \<and> (min_f c' \<noteq> None \<or> max_f c' \<noteq> None)
         \<and> min_f c = None \<and> max_f c = None"
proof -
  from assms have l: "\<not> len_current c > 1"
    by (auto simp: range_branch_def split: if_splits)
  then have c0: "values_f c = None \<and> min_f c = None \<and> max_f c = None"
    by (auto simp: len_current_def split: if_splits)
  from assms l obtain c1 where
    1: "set_bound float (u lo) (\<lambda>x c. c\<lparr>min_f := x\<rparr>) c = Inr c1" and
    2: "set_bound float (u hi) (\<lambda>x c. c\<lparr>max_f := x\<rparr>) c1 = Inr c'" and
    3: "\<not> len_current c' < 2"
    by (auto simp: range_branch_def split: if_splits sum.splits)
  from set_bound_min[OF 1] set_bound_max[OF 2] c0 have v: "values_f c' = None" by simp
  with 3 have "min_f c' \<noteq> None \<or> max_f c' \<noteq> None"
    by (auto simp: len_current_def split: if_splits)
  with v c0 show ?thesis by simp
qed

lemma filter_item_entry:
  assumes "filter_item u float filters kv = Inr fs'"
    and "axis = ''obs'' \<or> axis = ''var''"
  shows "map_of (get_axis fs' axis) nm = map_of (get_axis filters axis) nm \<or>
         (key_field u (fst kv) = Some (axis, nm) \<and>
          (\<exists>c'. map_of (get_axis fs' axis) nm = Some c' \<and>
            ((segments (snd kv) = 1 \<and>
                value_branch u (snd kv) (setdefault_current (get_axis filters axis) nm) = Inr c') \<or>
             (segments (snd kv) = 2 \<and>
                range_branch u float (str_split CHR '','' (snd kv) ! 0)
                  (str_split CHR '','' (snd kv) ! 1)
                  (setdefault_current (get_axis filters axis) nm) = Inr c'))))"
proof -
  from assms(1) obtain axis' name0 c' where
    k: "str_split CHR '':'' (fst kv) = [axis', name0]" and
    ax: "axis' = ''obs'' \<or> axis' = ''var''" and
    br: "(length (str_split CHR '','' (snd kv)) = 1 \<and>
        value_branch u (snd kv) (setdefault_current (get_axis filters axis') (u name0)) = Inr c') \<or>
     (length (str_split CHR '','' (snd kv)) = 2 \<and>
        range_branch u float (str_split CHR '','' (snd kv) ! 0) (str_split CHR '','' (snd kv) ! 1)
          (setdefault_current (get_axis filters axis') (u name0)) = Inr c')" and
    fs': "fs' = set_axis filters axis' (AList.update (u name0) c' (get_axis filters axis'))"
    by (rule filter_item_Inr)
  have g: "get_axis fs' axis =
      (if axis' = axis then AList.update (u name0) c' (get_axis filters axis') else get_axis filters axis)"
    unfolding fs' using ax assms(2) by (rule get_set_axis)
  show ?thesis
  proof (cases "axis' = axis \<and> u name0 = nm")
    case True
    with k ax have "key_field u (fst kv) = Some (axis, nm)"
      by (auto simp: key_field_def)
    moreover from True g have "map_of (get_axis fs' axis) nm = Some c'"
      by (simp add: update_conv')
    ultimately show ?thesis using br True by (auto simp: segments_def)
  next
    case False
    with g have "map_of (get_axis fs' axis) nm = map_of (get_axis filters axis) nm"
      by (auto simp: update_conv')
    then show ?thesis by simp
  qed
qed

lemma setdefault_current_Some:
  "map_of d nm = Some c \<Longrightarrow> setdefault_current d nm = c"
  by (simp add: setdefault_current_def)

lemma holds_range_kept:
  assumes "filter_item u float filters kv = Inr fs'"
    and "axis = ''obs'' \<or> axis = ''var''" and "holds_range filters axis nm"
  shows "holds_range fs' axis nm"
proof -
  from assms(3) obtain c where c: "map_of (get_axis filters axis) nm = Some c"
    and r: "min_f c \<noteq> None \<or> max_f c \<noteq> None"
    by (auto simp: holds_range_def split: option.splits)
  from filter_item_entry[OF assms(1,2), of nm] show ?thesis
  proof
    assume "map_of (get_axis fs' axis) nm = map_of (get_axis filters axis) nm"
    with assms(3) show ?thesis by (simp add: holds_range_def)
  next
    assume "key_field u (fst kv) = Some (axis, nm) \<and>
          (\<exists>c'. map_of (get_axis fs' axis) nm = Some c' \<and>
            ((segments (snd kv) = 1 \<and>
                value_branch u (snd kv) (setdefault_current (get_axis filters axis) nm) = Inr c') \<or>
             (segments (snd kv) = 2 \<and>
                range_branch u float (str_split CHR '','' (snd kv) ! 0)
                  (str_split CHR '','' (snd kv) ! 1)
                  (setdefault_current (get_axis filters axis) nm) = Inr c')))"
    then obtain c' where
      "value_branch u (snd kv) c = Inr c' \<or>
       range_branch u float (str_split CHR '','' (snd kv) ! 0) (str_split CHR '','' (snd kv) ! 1) c = Inr c'"
      by (auto simp: setdefault_current_Some[OF c])
    with r show ?thesis
      by (auto simp: value_branch_def dest: range_branch_Inr split: if_splits)
  qed
qed

lemma holds_values_kept:
  assumes "filter_item u float filters kv = Inr fs'"
    and "axis = ''obs'' \<or> axis = ''var''" and "holds_values filters axis nm"
  shows "holds_values fs' axis nm"
proof -
  from assms(3) obtain c where c: "map_of (get_axis filters axis) nm = Some c"
    and r: "values_f c \<noteq> None"
    by (auto simp: holds_values_def split: option.splits)
  from filter_item_entry[OF assms(1,2), of nm] show ?thesis
  proof
    assume "map_of (get_axis fs' axis) nm = map_of (get_axis filters axis) nm"
    with assms(3) show ?thesis by (simp add: holds_values_def)
  next
    assume "key_field u (fst kv) = Some (axis, nm) \<and>
          (\<exists>c'. map_of (get_axis fs' axis) nm = Some c' \<and>
            ((segments (snd kv) = 1 \<and>
                value_branch u (snd kv) (setdefault_current (get_axis filters axis) nm) = Inr c') \<or>
             (segments (snd kv) = 2 \<and>
                range_branch u float (str_split CHR '','' (snd kv) ! 0)
                  (str_split CHR '','' (snd kv) ! 1)
                  (setdefault_current (get_axis filters axis) nm) = Inr c')))"
    then obtain c' where m: "map_of (get_axis fs' axis) nm = Some c'" and
      "value_branch u (snd kv) c = Inr c' \<or>
       range_branch u float (str_split CHR '','' (snd kv) ! 0) (str_split CHR '','' (snd kv) ! 1) c = Inr c'"
      by (auto simp: setdefault_current_Some[OF c])
    with r have "values_f c' \<noteq> None"
      by (auto dest: range_branch_Inr value_branch_Inr)
    with m show ?thesis by (simp add: holds_values_def)
  qed
qed

lemma filter_item_establishes:
  assumes "filter_item u float filters kv = Inr fs'"
    and "key_field u (fst kv) = Some (axis, nm)"
  shows "(segments (snd kv) = 1 \<and> holds_values fs' axis nm) \<or>
         (segments (snd kv) = 2 \<and> holds_range fs' axis nm)"
proof -
  from key_field_Some[OF assms(2)] obtain name0 where
    k: "str_split CHR '':'' (fst kv) = [axis, name0]" and ax: "axis = ''obs'' \<or> axis = ''var''"
    and n: "u name0 = nm" by blast
  from assms(1) obtain axis' name0' c' where
    k': "str_split CHR '':'' (fst kv) = [axis', name0']" and
    br: "(length (str_split CHR '','' (snd kv)) = 1 \<and>
        value_branch u (snd kv) (setdefault_current (get_axis filters axis') (u name0')) = Inr c') \<or>
     (length (str_split CHR '','' (snd kv)) = 2 \<and>
        range_branch u float (str_split CHR '','' (snd kv) ! 0) (str_split CHR '','' (snd kv) ! 1)
          (setdefault_current (get_axis filters axis') (u name0')) = Inr c')" and
    fs': "fs' = set_axis filters axis' (AList.update (u name0') c' (get_axis filters axis'))"
    by (rule filter_item_Inr)
  from k k' have e: "axis' = axis" "name0' = name0" by simp_all
  have "get_axis fs' axis = AList.update nm c' (get_axis filters axis)"
    unfolding fs' e n using get_set_axis[OF ax ax] by simp
  then have m: "map_of (get_axis fs' axis) nm = Some c'"
    by (simp add: update_conv')
  from br show ?thesis
  proof
    assume "length (str_split CHR '','' (snd kv)) = 1 \<and>
        value_branch u (snd kv) (setdefault_current (get_axis filters axis') (u name0')) = Inr c'"
    then show ?thesis using m by (auto simp: segments_def holds_values_def dest: value_branch_Inr)
  next
    assume "length (str_split CHR '','' (snd kv)) = 2 \<and>
        range_branch u float (str_split CHR '','' (snd kv) ! 0) (str_split CHR '','' (snd kv) ! 1)
          (setdefault_current (get_axis filters axis') (u name0')) = Inr c'"
    then show ?thesis using m by (auto simp: segments_def holds_range_def dest: range_branch_Inr)
  qed
qed

lemma loop_value_after_range:
  assumes "holds_range filters axis nm" "kv \<in> set args"
    "key_field u (fst kv) = Some (axis, nm)" "segments (snd kv) = 1"
  shows "isl (filter_loop u float filters args)"
  using assms
proof (induction args arbitrary: filters)
  case Nil
  then show ?case by simp
next
  case (Cons a args)
  from key_field_Some[OF Cons.prems(3)] have ax: "axis = ''obs'' \<or> axis = ''var''" by blast
  show ?case
  proof (cases "filter_item u float filters a")
    case (Inl e)
    then show ?thesis by simp
  next
    case (Inr fs')
    have "a \<noteq> kv"
      using value_on_range[OF Cons.prems(1,3,4), of float] Inr by auto
    with Cons.prems have "kv \<in> set args" by simp
    with Cons.IH[OF holds_range_kept[OF Inr ax Cons.prems(1)]] Cons.prems Inr
    show ?thesis by simp
  qed
qed

lemma loop_range_after_value:
  assumes "holds_values filters axis nm" "kv \<in> set args"
    "key_field u (fst kv) = Some (axis, nm)" "segments (snd kv) = 2"
  shows "isl (filter_loop u float filters args)"
  using assms
proof (induction args arbitrary: filters)
  case Nil
  then show ?case by simp
next
  case (Cons a args)
  from key_field_Some[OF Cons.prems(3)] have ax: "axis = ''obs'' \<or> axis = ''var''" by blast
  show ?case
  proof (cases "filter_item u float filters a")
    case (Inl e)
    then show ?thesis by simp
  next
    case (Inr fs')
    have "a \<noteq> kv"
      using range_on_values[OF Cons.prems(1,3,4), of float] Inr by auto
    with Cons.prems have "kv \<in> set args" by simp
    with Cons.IH[OF holds_values_kept[OF Inr ax Cons.prems(1)]] Cons.prems Inr
    show ?thesis by simp
  qed
qed

lemma filter_loop_append:
  "filter_loop u float filters (xs @ ys) =
     (case filter_loop u float filters xs of Inl e \<Rightarrow> Inl e | Inr fs' \<Rightarrow> filter_loop u float fs' ys)"
  by (induction xs arbitrary: filters) (auto split: sum.splits)

lemma loop_mixed:
  assumes "key_field u (fst kv1) = Some (axis, nm)" "key_field u (fst kv2) = Some (axis, nm)"
    "kv2 \<in> set rest"
    "segments (snd kv1) = 1 \<and> segments (snd kv2) = 2 \<or> segments (snd kv1) = 2 \<and> segments (snd kv2) = 1"
  shows "isl (filter_loop u float filters (pre @ kv1 # rest))"
proof (cases "filter_loop u float filters pre")
  case (Inl e)
  then show ?thesis by (simp add: filter_loop_append)
next
  case (Inr fs1)
  show ?thesis
  proof (cases "filter_item u float fs1 kv1")
    case (Inl e)
    with Inr show ?thesis by (simp add: filter_loop_append)
  next
    case fs2: (Inr fs2)
    from filter_item_establishes[OF fs2 assms(1)] assms(4)
    have "(holds_values fs2 axis nm \<and> segments (snd kv2) = 2) \<or>
          (holds_range fs2 axis nm \<and> segments (snd kv2) = 1)" by auto
    then have "isl (filter_loop u float fs2 rest)"
      using loop_range_after_value[OF _ assms(3) assms(2)]
            loop_value_after_range[OF _ assms(3) assms(2)] by blast
    with Inr fs2 show ?thesis by (simp add: filter_loop_append)
  qed
qed

subsection \<open>The claims about the filter parser\<close>

text \<open>
  Claim C5. Take any parameter list in which two parameters address the same
  (axis, field) pair, one with a single-segment value and one with a two-segment
  (range) value, in either order, with anything before, between and after them.
  Parsing fails with \<open>FilterError\<close>: the parameter that arrives second meets a field
  that already holds the other kind, unless an earlier parameter has failed already.
\<close>

theorem parse_rejects_mixed_value_and_range:
  assumes "key_field url_unquote k1 = Some (axis, field)"
    and "key_field url_unquote k2 = Some (axis, field)"
    and "segments v1 = 1 \<and> segments v2 = 2 \<or> segments v1 = 2 \<and> segments v2 = 1"
  shows "\<exists>m. query_parameter_to_filter url_unquote float
            (pre @ (k1, v1) # mid @ (k2, v2) # post) = Inl (FilterError m)"
proof -
  have "isl (filter_loop url_unquote float \<lparr>obs = [], var = []\<rparr>
               (pre @ (k1, v1) # (mid @ (k2, v2) # post)))"
    by (rule loop_mixed[where ?kv2.0 = "(k2, v2)" and axis = axis and nm = field])
       (use assms in simp_all)
  then have "isl (query_parameter_to_filter url_unquote float (pre @ (k1, v1) # mid @ (k2, v2) # post))"
    by (simp add: query_fails_iff)
  with query_total[of url_unquote float "pre @ (k1, v1) # mid @ (k2, v2) # post"]
  show ?thesis by auto
qed

text \<open>Both orders of arrival, on a concrete parameter list.\<close>

theorem parse_rejects_mixed_value_and_range_witness:
  "(\<exists>m. query_parameter_to_filter id float_digits
       [(''obs:tissue'', ''heart''), (''var:gene'', ''x''), (''obs:tissue'', ''1,2'')]
     = Inl (FilterError m)) \<and>
   (\<exists>m. query_parameter_to_filter id float_digits
       [(''obs:tissue'', ''1,2''), (''var:gene'', ''x''), (''obs:tissue'', ''heart'')]
     = Inl (FilterError m))"
proof -
  have k: "key_field id ''obs:tissue'' = Some (''obs'', ''tissue'')"
    by (simp add: key_field_def)
  have s: "segments ''heart'' = 1" "segments ''1,2'' = 2"
    by (simp_all add: segments_def)
  from parse_rejects_mixed_value_and_range[OF k k, of "''heart''" "''1,2''" float_digits "[]"
      "[(''var:gene'', ''x'')]" "[]"] s
  have a: "\<exists>m. query_parameter_to_filter id float_digits
       [(''obs:tissue'', ''heart''), (''var:gene'', ''x''), (''obs:tissue'', ''1,2'')]
     = Inl (FilterError m)" by simp
  from parse_rejects_mixed_value_and_range[OF k k, of "''1,2''" "''heart''" float_digits "[]"
      "[(''var:gene'', ''x'')]" "[]"] s
  have b: "\<exists>m. query_parameter_to_filter id float_digits
       [(''obs:tissue'', ''1,2''), (''var:gene'', ''x''), (''obs:tissue'', ''heart'')]
     = Inl (FilterError m)" by simp
  from a b show ?thesis by simp
qed

text \<open>
  Claim C6. The parameters \<^verbatim>\<open>obs:tissue=heart\<close>, \<^verbatim>\<open>obs:num_reads=1000,*\<close>
  parse to exactly one axis entry, \<^verbatim>\<open>obs\<close>, with the value filter on
  \<^verbatim>\<open>tissue\<close> followed by the range on \<^verbatim>\<open>num_reads\<close> with \<^verbatim>\<open>min\<close> 1000.0 and no
  \<^verbatim>\<open>max\<close>; the result has no \<^verbatim>\<open>var\<close> key. The two library functions are
  any \<^verbatim>\<open>url_unquote\<close> that leaves a string without a percent sign as it is, and
  any \<^verbatim>\<open>float\<close> that reads \<^verbatim>\<open>"1000"\<close> as 1000.0.
\<close>

theorem parse_scenario:
  assumes unq: "\<And>s. CHR ''%'' \<notin> set s \<Longrightarrow> url_unquote s = s"
    and flt: "float ''1000'' = Inr (1000 :: real)"
  shows "query_parameter_to_filter url_unquote float
           [(''obs:tissue'', ''heart''), (''obs:num_reads'', ''1000,*'')]
         = Inr [(''obs'', \<lparr>annotation_value =
                  [\<lparr>name = ''tissue'', values_f = Some [''heart''], min_f = None, max_f = None\<rparr>,
                   \<lparr>name = ''num_reads'', values_f = None, min_f = Some 1000, max_f = None\<rparr>]\<rparr>)]
       \<and> map_of (projr (query_parameter_to_filter url_unquote float
           [(''obs:tissue'', ''heart''), (''obs:num_reads'', ''1000,*'')])) ''var'' = None"
proof -
  have u: "url_unquote ''tissue'' = ''tissue''" "url_unquote ''heart'' = ''heart''"
    "url_unquote ''num_reads'' = ''num_reads''" "url_unquote ''1000'' = ''1000''"
    "url_unquote ''*'' = ''*''"
    by (simp_all add: unq)
  have 1: "filter_item url_unquote float \<lparr>obs = [], var = []\<rparr> (''obs:tissue'', ''heart'')
      = Inr \<lparr>obs = [(''tissue'', \<lparr>name = ''tissue'', values_f = Some [''heart''],
                 min_f = None, max_f = None\<rparr>)], var = []\<rparr>"
    by (simp add: filter_item_def Let_def u get_axis_def set_axis_def setdefault_current_def
          value_branch_def)
  have 2: "filter_item url_unquote float
       \<lparr>obs = [(''tissue'', \<lparr>name = ''tissue'', values_f = Some [''heart''],
                 min_f = None, max_f = None\<rparr>)], var = []\<rparr> (''obs:num_reads'', ''1000,*'')
      = Inr \<lparr>obs = [(''tissue'', \<lparr>name = ''tissue'', values_f = Some [''heart''],
                 min_f = None, max_f = None\<rparr>),
                (''num_reads'', \<lparr>name = ''num_reads'', values_f = None,
                 min_f = Some 1000, max_f = None\<rparr>)], var = []\<rparr>"
    by (simp add: filter_item_def Let_def u flt get_axis_def set_axis_def setdefault_current_def
          range_branch_def set_bound_def len_current_def)
  have "query_parameter_to_filter url_unquote float
           [(''obs:tissue'', ''heart''), (''obs:num_reads'', ''1000,*'')]
         = Inr [(''obs'', \<lparr>annotation_value =
                  [\<lparr>name = ''tissue'', values_f = Some [''heart''], min_f = None, max_f = None\<rparr>,
                   \<lparr>name = ''num_reads'', values_f = None, min_f = Some 1000, max_f = None\<rparr>]\<rparr>)]"
    by (simp add: query_parameter_to_filter_def 1 2 filter_result_def get_axis_def)
  then show ?thesis by simp
qed

text \<open>The scenario with the identity for \<^verbatim>\<open>url_unquote\<close> and the sample \<^verbatim>\<open>float\<close>.\<close>

theorem parse_scenario_witness:
  "query_parameter_to_filter id float_digits
           [(''obs:tissue'', ''heart''), (''obs:num_reads'', ''1000,*'')]
         = Inr [(''obs'', \<lparr>annotation_value =
                  [\<lparr>name = ''tissue'', values_f = Some [''heart''], min_f = None, max_f = None\<rparr>,
                   \<lparr>name = ''num_reads'', values_f = None, min_f = Some 1000, max_f = None\<rparr>]\<rparr>)]"
proof -
  have f: "float_digits ''1000'' = Inr (1000 :: real)"
    by (simp add: float_digits_def digit_of_def)
  from parse_scenario[of id float_digits, OF _ f] show ?thesis by simp
qed

text \<open>
  Claim C8. For every parameter list, parsing returns a filter or raises
  \<open>FilterError\<close>, never another exception: the \<^verbatim>\<open>ValueError\<close> of a failed
  unpacking or of \<^verbatim>\<open>float\<close> is converted. A list with a malformed parameter (a
  key that does not split into exactly two parts at the colon, an unknown axis, a value
  of more than two segments, or a range endpoint that is neither \<^verbatim>\<open>*\<close> nor a number)
  raises \<open>FilterError\<close>.
\<close>

theorem parse_raises_only_FilterError:
  "((\<exists>r. query_parameter_to_filter url_unquote float args = Inr r) \<or>
    (\<exists>m. query_parameter_to_filter url_unquote float args = Inl (FilterError m))) \<and>
   ((\<exists>kv \<in> set args. malformed url_unquote float kv) \<longrightarrow>
      (\<exists>m. query_parameter_to_filter url_unquote float args = Inl (FilterError m)))"
proof (intro conjI impI)
  show "(\<exists>r. query_parameter_to_filter url_unquote float args = Inr r) \<or>
    (\<exists>m. query_parameter_to_filter url_unquote float args = Inl (FilterError m))"
    by (rule query_total)
next
  assume "\<exists>kv \<in> set args. malformed url_unquote float kv"
  then have "isl (filter_loop url_unquote float \<lparr>obs = [], var = []\<rparr> args)"
    by (auto intro: filter_loop_malformed)
  then have "isl (query_parameter_to_filter url_unquote float args)"
    by (simp add: query_fails_iff)
  with query_total[of url_unquote float args]
  show "\<exists>m. query_parameter_to_filter url_unquote float args = Inl (FilterError m)" by auto
qed

text \<open>One concrete parameter for each of the four malformations.\<close>

theorem parse_raises_only_FilterError_witness:
  "(\<exists>m. query_parameter_to_filter id float_digits [(''tissue'', ''heart'')] = Inl (FilterError m)) \<and>
   (\<exists>m. query_parameter_to_filter id float_digits [(''obs:n'', ''1,x'')] = Inl (FilterError m)) \<and>
   (\<exists>m. query_parameter_to_filter id float_digits [(''obs:n'', ''1,2,3'')] = Inl (FilterError m)) \<and>
   (\<exists>m. query_parameter_to_filter id float_digits [(''cell:n'', ''1'')] = Inl (FilterError m))"
proof -
  have 1: "malformed id float_digits (''tissue'', ''heart'')"
    by (simp add: malformed_def bad_key_def)
  have 2: "malformed id float_digits (''obs:n'', ''1,x'')"
    by (simp add: malformed_def bad_endpoint_def not_numeric_def float_digits_def digit_of_def)
  have 3: "malformed id float_digits (''obs:n'', ''1,2,3'')"
    by (simp add: malformed_def bad_segment_count_def)
  have 4: "malformed id float_digits (''cell:n'', ''1'')"
    by (simp add: malformed_def unknown_axis_def)
  from parse_raises_only_FilterError[of id float_digits "[(''tissue'', ''heart'')]"]
       parse_raises_only_FilterError[of id float_digits "[(''obs:n'', ''1,x'')]"]
       parse_raises_only_FilterError[of id float_digits "[(''obs:n'', ''1,2,3'')]"]
       parse_raises_only_FilterError[of id float_digits "[(''cell:n'', ''1'')]"]
       1 2 3 4
  show ?thesis by simp
qed

section \<open>JSON bodies, responses and the trace of a request\<close>

text \<open>
  \<^verbatim>\<open>request.get_json()\<close> gives a parsed JSON value: \<^verbatim>\<open>None\<close>, a bool, a
  number, a string, a list or a dict. A dict is the list of its items, each key once; a
  key is looked up with \<open>map_of\<close>.
\<close>

datatype json =
    JNull
  | JBool bool
  | JInt int
  | JFloat real
  | JStr string
  | JArr "json list"
  | JObj "(string \<times> json) list"

text \<open>\<^verbatim>\<open>obj[key]\<close> with a string key: only a dict can be indexed by a string.\<close>

fun py_getitem :: "json \<Rightarrow> string \<Rightarrow> exn + json" where
  "py_getitem (JObj items) key =
     (case map_of items key of None \<Rightarrow> Inl (KeyError key) | Some v \<Rightarrow> Inr v)"
| "py_getitem other key = Inl TypeError"

text \<open>\<^verbatim>\<open>obj.get(key, default)\<close>: only a dict has the method.\<close>

fun dict_get :: "json \<Rightarrow> string \<Rightarrow> json \<Rightarrow> exn + json" where
  "dict_get (JObj items) key dflt =
     (case map_of items key of None \<Rightarrow> Inr dflt | Some v \<Rightarrow> Inr v)"
| "dict_get other key dflt = Inl AttributeError"



datatype body = Json json | Data string | Attachment string string

record response =
  body :: body
  status :: HTTPStatus
  content_type :: "string option"

text \<open>
  What a handler does besides answering: the messages it logs and the calls it makes to
  the data adaptor's computations, in order.
\<close>

datatype logmsg = Msg string | Str_of exn | JSON_NaN_to_num_warning_msg

datatype event =
    Log logmsg
  | Print logmsg
  | Diffexp_topN json json json



section \<open>Differential expression\<close>













subsection \<open>Properties of the differential-expression handler\<close>

















section \<open>The per-user file store\<close>

text \<open>
  The handlers keep a user's state in files under the directory named by the user id.
  The store maps a path to the content of the file there. \<^verbatim>\<open>os.remove\<close> can fail on
  a file that exists (a permission, a directory in its place): \<open>locked\<close> holds the
  paths on which it does. Paths are compared as the strings the handlers build.
\<close>

record store =
  files :: "string \<rightharpoonup> string"
  locked :: "string set"

definition path_exists :: "store \<Rightarrow> string \<Rightarrow> bool" where
  "path_exists st p = (files st p \<noteq> None)"

definition os_remove :: "store \<Rightarrow> string \<Rightarrow> exn + store" where
  "os_remove st p =
     (if files st p = None \<or> p \<in> locked st then Inl OSError
      else Inr (st\<lparr>files := (files st)(p := None)\<rparr>))"

section \<open>Deleting embeddings\<close>

text \<open>
  \<^verbatim>\<open>delete_obsm_put(request, data_adaptor)\<close>. The user id comes from the adaptor's
  annotations object and is a parameter. \<^verbatim>\<open>for embName in embNames\<close> iterates a
  list by its elements, a string by its characters and a dict by its keys; a number or a
  bool is not iterable. The f-string formats a string as itself; Python's \<^verbatim>\<open>str\<close> of
  any other JSON value is the parameter \<open>py_str\<close>. Building the response
  (\<^verbatim>\<open>jsonify\<close>, \<^verbatim>\<open>make_response\<close>) raises nothing, so the \<^verbatim>\<open>except\<close>
  clauses around it have nothing to catch.
\<close>

fun py_iter :: "json \<Rightarrow> exn + json list" where
  "py_iter (JArr xs) = Inr xs"
| "py_iter (JStr s) = Inr (map (\<lambda>c. JStr [c]) s)"
| "py_iter (JObj items) = Inr (map (\<lambda>kv. JStr (fst kv)) items)"
| "py_iter other = Inl TypeError"

definition format_value :: "(json \<Rightarrow> string) \<Rightarrow> json \<Rightarrow> string" where
  "format_value py_str v = (case v of JStr s \<Rightarrow> s | _ \<Rightarrow> py_str v)"

text \<open>The three artifacts of an embedding name: \<^verbatim>\<open>f"{userID}/emb/{embName}.p"\<close> and so on.\<close>

definition artifact_path :: "string \<Rightarrow> string \<Rightarrow> string \<Rightarrow> string" where
  "artifact_path userID kind embName = userID @ ''/'' @ kind @ ''/'' @ embName @ ''.p''"

definition artifact_kinds :: "string list" where
  "artifact_kinds = [''emb'', ''nnm'', ''params'']"

text \<open>\<^verbatim>\<open>if os.path.exists(p): os.remove(p)\<close>.\<close>

definition remove_if_exists :: "store \<Rightarrow> string \<Rightarrow> exn + store" where
  "remove_if_exists st p = (if path_exists st p then os_remove st p else Inr st)"

text \<open>
  The three removals for one name, then the loop over the names. Files removed before
  an exception stay removed: the exception is returned with the store it left behind.
\<close>

fun remove_paths :: "store \<Rightarrow> string list \<Rightarrow> (exn \<times> store) + store" where
  "remove_paths st [] = Inr st"
| "remove_paths st (p # ps) =
     (case remove_if_exists st p of
        Inl e \<Rightarrow> Inl (e, st)
      | Inr st' \<Rightarrow> remove_paths st' ps)"

definition name_paths :: "(json \<Rightarrow> string) \<Rightarrow> string \<Rightarrow> json \<Rightarrow> string list" where
  "name_paths py_str userID embName =
     map (\<lambda>kind. artifact_path userID kind (format_value py_str embName)) artifact_kinds"

definition delete_loop ::
  "(json \<Rightarrow> string) \<Rightarrow> string \<Rightarrow> store \<Rightarrow> json list \<Rightarrow> (exn \<times> store) + store" where
  "delete_loop py_str userID st embNames =
     remove_paths st (concat (map (name_paths py_str userID) embNames))"

definition fail_response :: "bool \<Rightarrow> response" where
  "fail_response fail =
     \<lparr>body = Json (JObj [(''fail'', JBool fail)]), status = OK,
      content_type = Some ''application/json''\<rparr>"

definition delete_obsm_put ::
  "(json \<Rightarrow> string) \<Rightarrow> string \<Rightarrow> json \<Rightarrow> store \<Rightarrow> (exn + response) \<times> store" where
  "delete_obsm_put py_str userID args st =
     (case dict_get args ''embNames'' JNull of
        Inl e \<Rightarrow> (Inl e, st)
      | Inr embNames \<Rightarrow>
          let fail = False in
          (case (if embNames \<noteq> JNull then
                   (case py_iter embNames of
                      Inl e \<Rightarrow> Inl (e, st)
                    | Inr names \<Rightarrow> delete_loop py_str userID st names)
                 else Inr st) of
             Inl (e, st') \<Rightarrow> (Inl e, st')
           | Inr st' \<Rightarrow> (Inr (fail_response fail), st')))"

text \<open>All the paths a request names, in the order the loop visits them.\<close>

definition requested_paths :: "(json \<Rightarrow> string) \<Rightarrow> string \<Rightarrow> json list \<Rightarrow> string list" where
  "requested_paths py_str userID embNames = concat (map (name_paths py_str userID) embNames)"

text \<open>A sample store for the concrete instances: one embedding without its graph.\<close>

definition sample_store :: store where
  "sample_store =
     \<lparr>files = [''u1/emb/umap.p'' \<mapsto> ''E'', ''u1/params/umap.p'' \<mapsto> ''P'', ''u1/obs.p'' \<mapsto> ''L'',
               ''u1/gene-sets.csv'' \<mapsto> ''G''],
      locked = {}\<rparr>"

subsection \<open>Properties of the deletion\<close>




lemma remove_paths_absent:
  assumes "\<forall>p \<in> set ps. files st p = None"
  shows "remove_paths st ps = Inr st"
  using assms by (induction ps) (auto simp: remove_if_exists_def path_exists_def)

lemma delete_obsm_put_list:
  assumes "dict_get args ''embNames'' JNull = Inr (JArr names)"
  shows "delete_obsm_put py_str userID args st =
     (case remove_paths st (requested_paths py_str userID names) of
        Inl (e, st') \<Rightarrow> (Inl e, st')
      | Inr st' \<Rightarrow> (Inr (fail_response False), st'))"
  using assms by (simp add: delete_obsm_put_def delete_loop_def requested_paths_def)

lemma delete_obsm_put_response:
  "fst (delete_obsm_put py_str userID args st) = Inr r \<Longrightarrow> r = fail_response False"
  by (auto simp: delete_obsm_put_def Let_def split: sum.splits if_splits prod.splits)



text \<open>
  Claim C9. Whenever the operation returns a response, its body is
  \<^verbatim>\<open>{"fail": false}\<close> and its status 200. It does return that response, and
  leaves the store alone, when \<^verbatim>\<open>embNames\<close> is absent or null, when it is the empty
  list, and when it lists names none of whose artifacts exist.
\<close>

theorem delete_response_fail_false:
  "(fst (delete_obsm_put py_str userID args st) = Inr r \<longrightarrow>
      body r = Json (JObj [(''fail'', JBool False)]) \<and> status_code (status r) = 200) \<and>
   (dict_get args ''embNames'' JNull = Inr JNull \<longrightarrow>
      delete_obsm_put py_str userID args st = (Inr (fail_response False), st)) \<and>
   (dict_get args ''embNames'' JNull = Inr (JArr []) \<longrightarrow>
      delete_obsm_put py_str userID args st = (Inr (fail_response False), st)) \<and>
   (dict_get args ''embNames'' JNull = Inr (JArr names) \<and>
    (\<forall>p \<in> set (requested_paths py_str userID names). files st p = None) \<longrightarrow>
      delete_obsm_put py_str userID args st = (Inr (fail_response False), st))"
proof (intro conjI impI)
  assume "fst (delete_obsm_put py_str userID args st) = Inr r"
  from delete_obsm_put_response[OF this]
  show "body r = Json (JObj [(''fail'', JBool False)])" "status_code (status r) = 200"
    by (simp_all add: fail_response_def)
next
  assume "dict_get args ''embNames'' JNull = Inr JNull"
  then show "delete_obsm_put py_str userID args st = (Inr (fail_response False), st)"
    by (simp add: delete_obsm_put_def)
next
  assume "dict_get args ''embNames'' JNull = Inr (JArr [])"
  then show "delete_obsm_put py_str userID args st = (Inr (fail_response False), st)"
    by (simp add: delete_obsm_put_def delete_loop_def)
next
  assume a: "dict_get args ''embNames'' JNull = Inr (JArr names) \<and>
    (\<forall>p \<in> set (requested_paths py_str userID names). files st p = None)"
  then have "remove_paths st (requested_paths py_str userID names) = Inr st"
    using remove_paths_absent by blast
  with a show "delete_obsm_put py_str userID args st = (Inr (fail_response False), st)"
    by (simp add: delete_obsm_put_list)
qed

text \<open>A name without artifacts, and a body without \<^verbatim>\<open>embNames\<close>.\<close>

theorem delete_response_fail_false_witness:
  "delete_obsm_put (\<lambda>v. ''?'') ''u1'' (JObj [(''embNames'', JArr [JStr ''ghost''])]) sample_store
     = (Inr (fail_response False), sample_store) \<and>
   delete_obsm_put (\<lambda>v. ''?'') ''u1'' (JObj []) sample_store
     = (Inr (fail_response False), sample_store) \<and>
   body (fail_response False) = Json (JObj [(''fail'', JBool False)]) \<and>
   status_code (status (fail_response False)) = 200"
proof -
  have 1: "dict_get (JObj [(''embNames'', JArr [JStr ''ghost''])]) ''embNames'' JNull
      = Inr (JArr [JStr ''ghost'']) \<and>
    (\<forall>p \<in> set (requested_paths (\<lambda>v. ''?'') ''u1'' [JStr ''ghost'']). files sample_store p = None)"
    by (simp add: requested_paths_def name_paths_def artifact_kinds_def artifact_path_def
          format_value_def sample_store_def)
  have 2: "dict_get (JObj []) ''embNames'' JNull = Inr JNull" by simp
  from delete_response_fail_false[of "\<lambda>v. ''?''" "''u1''"
      "JObj [(''embNames'', JArr [JStr ''ghost''])]" sample_store "fail_response False"
      "[JStr ''ghost'']"] 1
  have a: "delete_obsm_put (\<lambda>v. ''?'') ''u1'' (JObj [(''embNames'', JArr [JStr ''ghost''])])
      sample_store = (Inr (fail_response False), sample_store)" by blast
  from delete_response_fail_false[of "\<lambda>v. ''?''" "''u1''" "JObj []" sample_store
      "fail_response False" "[]"] 2
  have b: "delete_obsm_put (\<lambda>v. ''?'') ''u1'' (JObj []) sample_store
     = (Inr (fail_response False), sample_store)" by blast
  from delete_response_fail_false[of "\<lambda>v. ''?''" "''u1''" "JObj []" sample_store
      "fail_response False" "[]"] b
  have c: "body (fail_response False) = Json (JObj [(''fail'', JBool False)]) \<and>
      status_code (status (fail_response False)) = 200" by simp
  from a b c show ?thesis by simp
qed

section \<open>Exports\<close>

text \<open>
  \<^verbatim>\<open>save_metadata_put\<close> and \<^verbatim>\<open>save_genedata_put\<close> answer with a file of the user's
  directory. The first writes the file it sends and registers, with Flask's
  \<^verbatim>\<open>after_this_request\<close>, the function \<^verbatim>\<open>remove_file\<close> that deletes it; a
  handler's result therefore carries the paths of the hooks it registered.

  The adaptor's \<^verbatim>\<open>get_shape\<close> and \<^verbatim>\<open>_axis_filter_to_mask\<close> are fields of a record.
  The pandas steps between reading \<^verbatim>\<open>obs.p\<close> and writing the CSV (unpickling,
  selecting the columns \<^verbatim>\<open>labelNames\<close>, selecting the rows of the mask, rendering)
  are one parameter, \<open>labels_csv\<close>: the text written, or the exception raised on
  the way, none of which the handler catches.
\<close>

record 'mask export_adaptor =
  get_shape :: "exn + nat \<times> nat"
  axis_filter_to_mask :: "json \<Rightarrow> nat \<Rightarrow> exn + 'mask"

record export_result =
  result :: "exn + response"
  store_after :: store
  after_hooks :: "string list"
  logged :: "event list"

text \<open>
  \<^verbatim>\<open>send_file(path, as_attachment=True)\<close>: the file must be there to be opened. The
  handlers prefix the path with the working directory (\<^verbatim>\<open>pathlib.Path().absolute()\<close>),
  which names the same file as the relative path they write and remove.
\<close>

definition send_file :: "store \<Rightarrow> string \<Rightarrow> exn + response" where
  "send_file st path =
     (case files st path of
        None \<Rightarrow> Inl OSError
      | Some content \<Rightarrow>
          Inr \<lparr>body = Attachment path content, status = OK, content_type = None\<rparr>)"

text \<open>
  The \<^verbatim>\<open>except\<close> clauses around \<^verbatim>\<open>send_file\<close>:
  \<^verbatim>\<open>NotImplementedError\<close>, then \<^verbatim>\<open>(ValueError, DisabledFeatureError, FilterError)\<close>.
\<close>

fun send_except :: "exn \<Rightarrow> exn \<times> event list" where
  "send_except NotImplementedError =
     (HTTPException NOT_IMPLEMENTED, [Log (Str_of NotImplementedError)])"
| "send_except (ValueError m) = (HTTPException BAD_REQUEST, [Log (Str_of (ValueError m))])"
| "send_except DisabledFeatureError =
     (HTTPException BAD_REQUEST, [Log (Str_of DisabledFeatureError)])"
| "send_except (FilterError m) = (HTTPException BAD_REQUEST, [Log (Str_of (FilterError m))])"
| "send_except e = (e, [])"

definition send_export :: "store \<Rightarrow> string \<Rightarrow> string list \<Rightarrow> export_result" where
  "send_export st path hooks =
     (case send_file st path of
        Inr r \<Rightarrow> \<lparr>result = Inr r, store_after = st, after_hooks = hooks, logged = []\<rparr>
      | Inl e \<Rightarrow>
          \<lparr>result = Inl (fst (send_except e)), store_after = st, after_hooks = hooks,
           logged = snd (send_except e)\<rparr>)"

definition raised :: "exn \<Rightarrow> store \<Rightarrow> export_result" where
  "raised e st = \<lparr>result = Inl e, store_after = st, after_hooks = [], logged = []\<rparr>"

text \<open>
  The first \<^verbatim>\<open>try\<close> of \<^verbatim>\<open>save_metadata_put\<close>: the mask of the filter's
  \<^verbatim>\<open>obs\<close> part; a \<^verbatim>\<open>KeyError\<close> or \<^verbatim>\<open>IndexError\<close> becomes a \<^verbatim>\<open>FilterError\<close>.
\<close>

definition obs_mask_of :: "'mask export_adaptor \<Rightarrow> json \<Rightarrow> exn + 'mask" where
  "obs_mask_of data_adaptor flt =
     (case (case get_shape data_adaptor of
              Inl e \<Rightarrow> Inl e
            | Inr shape \<Rightarrow>
                (case py_getitem flt ''obs'' of
                   Inl e \<Rightarrow> Inl e
                 | Inr obs_filter \<Rightarrow> axis_filter_to_mask data_adaptor obs_filter (fst shape))) of
        Inl (KeyError k) \<Rightarrow> Inl (FilterError ''Error parsing filter'')
      | Inl IndexError \<Rightarrow> Inl (FilterError ''Error parsing filter'')
      | Inl e \<Rightarrow> Inl e
      | Inr m \<Rightarrow> Inr m)"

text \<open>\<^verbatim>\<open>args["filter"] if args else None\<close>: an empty dict is falsy.\<close>

fun py_truthy :: "json \<Rightarrow> bool" where
  "py_truthy JNull = False"
| "py_truthy (JBool b) = b"
| "py_truthy (JInt i) = (i \<noteq> 0)"
| "py_truthy (JFloat x) = (x \<noteq> 0)"
| "py_truthy (JStr s) = (s \<noteq> [])"
| "py_truthy (JArr xs) = (xs \<noteq> [])"
| "py_truthy (JObj items) = (items \<noteq> [])"

definition filter_arg :: "json \<Rightarrow> exn + json" where
  "filter_arg args = (if py_truthy args then py_getitem args ''filter'' else Inr JNull)"

definition obs_csv_path :: "string \<Rightarrow> string" where
  "obs_csv_path userID = userID @ ''/'' @ userID @ ''_obs.csv''"

definition save_metadata_put ::
  "(string \<Rightarrow> json \<Rightarrow> 'mask \<Rightarrow> exn + string) \<Rightarrow> string \<Rightarrow> 'mask export_adaptor \<Rightarrow> json \<Rightarrow> store
     \<Rightarrow> export_result" where
  "save_metadata_put labels_csv userID data_adaptor args st =
     (case dict_get args ''labelNames'' JNull of
        Inl e \<Rightarrow> raised e st
      | Inr labelNames \<Rightarrow>
     (case filter_arg args of
        Inl e \<Rightarrow> raised e st
      | Inr flt \<Rightarrow>
     (case obs_mask_of data_adaptor flt of
        Inl e \<Rightarrow> raised e st
      | Inr obs_mask \<Rightarrow>
     (case files st (userID @ ''/obs.p'') of
        None \<Rightarrow> raised OSError st
      | Some pickled \<Rightarrow>
     (case labels_csv pickled labelNames obs_mask of
        Inl e \<Rightarrow> raised e st
      | Inr csv \<Rightarrow>
          let st' = st\<lparr>files := (files st)(obs_csv_path userID \<mapsto> csv)\<rparr>
          in send_export st' (obs_csv_path userID) [obs_csv_path userID])))))"

definition save_genedata_put :: "string \<Rightarrow> store \<Rightarrow> export_result" where
  "save_genedata_put userID st = send_export st (userID @ ''/gene-sets.csv'') []"

text \<open>
  The hook: \<^verbatim>\<open>try: os.remove(path) except Exception as error: print(error)\<close>, then
  \<^verbatim>\<open>return response\<close>. Flask calls the hooks a view registered on the response the
  view returned, in the order of registration.
\<close>

definition remove_file :: "string \<Rightarrow> response \<times> store \<times> event list \<Rightarrow> response \<times> store \<times> event list" where
  "remove_file path x =
     (case x of (response, st, out) \<Rightarrow>
        (case os_remove st path of
           Inl error \<Rightarrow> (response, st, out @ [Print (Str_of error)])
         | Inr st' \<Rightarrow> (response, st', out)))"

definition after_this_request :: "string list \<Rightarrow> response \<Rightarrow> store \<Rightarrow> response \<times> store \<times> event list" where
  "after_this_request hooks response st = fold remove_file hooks (response, st, [])"

text \<open>The store once the request is over: the handler, then its hooks.\<close>

definition completed :: "export_result \<Rightarrow> (response \<times> store \<times> event list) option" where
  "completed x =
     (case result x of
        Inl e \<Rightarrow> None
      | Inr response \<Rightarrow> Some (after_this_request (after_hooks x) response (store_after x)))"

text \<open>A sample adaptor for the concrete instances: two cells, every one selected.\<close>

definition sample_export_adaptor :: "bool list export_adaptor" where
  "sample_export_adaptor =
     \<lparr>get_shape = Inr (2, 3), axis_filter_to_mask = (\<lambda>f n. Inr (replicate n True))\<rparr>"

subsection \<open>Properties of the exports\<close>

lemma save_metadata_put_Inr:
  assumes "result (save_metadata_put labels_csv userID data_adaptor args st) = Inr response"
  obtains csv where
    "save_metadata_put labels_csv userID data_adaptor args st =
       \<lparr>result = Inr response,
        store_after = st\<lparr>files := (files st)(obs_csv_path userID \<mapsto> csv)\<rparr>,
        after_hooks = [obs_csv_path userID], logged = []\<rparr>"
  using assms
  by (auto simp: save_metadata_put_def raised_def send_export_def send_file_def Let_def
           split: sum.splits option.splits)

lemma remove_file_once:
  "after_this_request [path] response st =
     (if files st path = None \<or> path \<in> locked st then (response, st, [Print (Str_of OSError)])
      else (response, st\<lparr>files := (files st)(path := None)\<rparr>, []))"
  by (simp add: after_this_request_def remove_file_def os_remove_def)

text \<open>
  Claim C3, as amended. When the export of the filtered obs labels returns its response,
  it has written the file and registered one hook, which removes that file. Once the
  hooks have run the response is the one the view returned; the file is gone when
  \<^verbatim>\<open>os.remove\<close> succeeds, and when it fails the error is printed and nothing else
  changes. The export of the gene sets registers no hook and leaves the store as it
  was: the file it sends stays.
\<close>

theorem metadata_export_removed:
  assumes "result (save_metadata_put labels_csv userID data_adaptor args st) = Inr response"
  shows "after_hooks (save_metadata_put labels_csv userID data_adaptor args st)
           = [obs_csv_path userID] \<and>
         files (store_after (save_metadata_put labels_csv userID data_adaptor args st))
           (obs_csv_path userID) \<noteq> None \<and>
         (\<exists>st' out. completed (save_metadata_put labels_csv userID data_adaptor args st)
             = Some (response, st', out) \<and>
            (obs_csv_path userID \<notin> locked st \<longrightarrow>
               files st' (obs_csv_path userID) = None \<and> out = []) \<and>
            (obs_csv_path userID \<in> locked st \<longrightarrow>
               st' = store_after (save_metadata_put labels_csv userID data_adaptor args st) \<and>
               out = [Print (Str_of OSError)])) \<and>
         after_hooks (save_genedata_put userID st) = [] \<and>
         store_after (save_genedata_put userID st) = st \<and>
         (\<forall>r. result (save_genedata_put userID st) = Inr r \<longrightarrow>
            completed (save_genedata_put userID st) = Some (r, st, []))"
proof -
  from assms obtain csv where
    x: "save_metadata_put labels_csv userID data_adaptor args st =
       \<lparr>result = Inr response,
        store_after = st\<lparr>files := (files st)(obs_csv_path userID \<mapsto> csv)\<rparr>,
        after_hooks = [obs_csv_path userID], logged = []\<rparr>"
    by (rule save_metadata_put_Inr)
  have g: "after_hooks (save_genedata_put userID st) = [] \<and>
         store_after (save_genedata_put userID st) = st"
    by (simp add: save_genedata_put_def send_export_def split: sum.splits)
  then have "\<forall>r. result (save_genedata_put userID st) = Inr r \<longrightarrow>
            completed (save_genedata_put userID st) = Some (r, st, [])"
    by (simp add: completed_def after_this_request_def)
  with g show ?thesis
    by (simp add: x completed_def remove_file_once)
qed

text \<open>An export of one label column on the sample store.\<close>

theorem metadata_export_removed_witness:
  "(\<exists>st' out. completed (save_metadata_put (\<lambda>p l m. Inr ''csv'') ''u1'' sample_export_adaptor
        (JObj [(''labelNames'', JArr [JStr ''a'']), (''filter'', JObj [(''obs'', JObj [])])])
        sample_store)
      = Some (\<lparr>body = Attachment ''u1/u1_obs.csv'' ''csv'', status = OK, content_type = None\<rparr>,
              st', out) \<and>
      files st' ''u1/u1_obs.csv'' = None \<and> out = [])"
proof -
  have r: "result (save_metadata_put (\<lambda>p l m. Inr ''csv'') ''u1'' sample_export_adaptor
        (JObj [(''labelNames'', JArr [JStr ''a'']), (''filter'', JObj [(''obs'', JObj [])])])
        sample_store)
      = Inr \<lparr>body = Attachment ''u1/u1_obs.csv'' ''csv'', status = OK, content_type = None\<rparr>"
    by (simp add: save_metadata_put_def filter_arg_def obs_mask_of_def sample_export_adaptor_def
          sample_store_def obs_csv_path_def send_export_def send_file_def Let_def)
  have l: "obs_csv_path ''u1'' = ''u1/u1_obs.csv''" "''u1/u1_obs.csv'' \<notin> locked sample_store"
    by (simp_all add: obs_csv_path_def sample_store_def)
  from metadata_export_removed[OF r] l show ?thesis by auto
qed

text \<open>
  Claim C3 as the spec states it fails for the gene sets: after the request is over,
  \<^verbatim>\<open>gene-sets.csv\<close> is still in the user's directory.
\<close>

theorem genedata_export_kept_counterexample:
  "completed (save_genedata_put ''u1'' sample_store)
     = Some (\<lparr>body = Attachment ''u1/gene-sets.csv'' ''G'', status = OK, content_type = None\<rparr>,
             sample_store, []) \<and>
   files sample_store ''u1/gene-sets.csv'' = Some ''G''"
  by (simp add: completed_def save_genedata_put_def send_export_def send_file_def
        after_this_request_def sample_store_def)

section \<open>Summaries of the var axis\<close>

text \<open>
  \<^verbatim>\<open>summarize_var_helper\<close> and \<^verbatim>\<open>summarize_var_post\<close>. Of the request the
  handlers read the content type and the declared content length (each may be missing),
  the query parameters \<^verbatim>\<open>args\<close>, the combined parameters \<^verbatim>\<open>values\<close>
  (multi-dicts: lists of pairs, \<^verbatim>\<open>get\<close> gives the first value of a key), the body and
  the outcome of the content negotiation. \<^verbatim>\<open>summarizeQueryHash\<close> and the adaptor's
  \<^verbatim>\<open>summarize_var\<close> are parameters; the trace records the calls to them.
\<close>

record request =
  req_content_type :: "string option"
  req_content_length :: "nat option"
  req_args :: "(string \<times> string) list"
  req_values :: "(string \<times> string) list"
  req_data :: string
  best_match :: "string list \<Rightarrow> string option"

datatype summary_event =
    Query_hashed string
  | Summarized string string string bool

type_synonym 'f summarize_var =
  "string \<Rightarrow> (string \<times> 'f axis_filter) list \<Rightarrow> string \<Rightarrow> string \<Rightarrow> bool \<Rightarrow> exn + string"

text \<open>\<^verbatim>\<open>multidict.get(key, default)\<close> and \<^verbatim>\<open>multidict.poplist(key)\<close>.\<close>

definition md_get :: "(string \<times> string) list \<Rightarrow> string \<Rightarrow> string \<Rightarrow> string" where
  "md_get md key dflt = (case map_of md key of None \<Rightarrow> dflt | Some v \<Rightarrow> v)"

definition poplist :: "string \<Rightarrow> (string \<times> string) list \<Rightarrow> (string \<times> string) list" where
  "poplist key md = filter (\<lambda>kv. fst kv \<noteq> key) md"

text \<open>
  The \<^verbatim>\<open>except\<close> clauses of the helper: \<^verbatim>\<open>ValueError\<close> first, then
  \<^verbatim>\<open>(UnsupportedSummaryMethod, FilterError)\<close>.
\<close>

fun summary_except :: "exn \<Rightarrow> exn" where
  "summary_except (ValueError m) = HTTPException NOT_FOUND"
| "summary_except UnsupportedSummaryMethod = HTTPException BAD_REQUEST"
| "summary_except (FilterError m) = HTTPException BAD_REQUEST"
| "summary_except e = e"

definition summarize_var_helper ::
  "(string \<Rightarrow> string) \<Rightarrow> (string \<Rightarrow> string + 'f) \<Rightarrow> (string \<Rightarrow> string) \<Rightarrow> 'f summarize_var
     \<Rightarrow> request \<Rightarrow> string option \<Rightarrow> string \<Rightarrow> (exn + response) \<times> summary_event list" where
  "summarize_var_helper url_unquote float summarizeQueryHash summarize_var request key raw_query =
     (if best_match request [''application/octet-stream''] \<noteq> Some ''application/octet-stream''
      then (Inl (HTTPException NOT_ACCEPTABLE), [])
      else
        let summary_method = md_get (req_values request) ''method'' ''mean'';
            query_hash = summarizeQueryHash raw_query
        in if key \<noteq> None \<and> key \<noteq> Some [] \<and> Some query_hash \<noteq> key
           then (Inl (HTTPException BAD_REQUEST), [Query_hashed raw_query])
           else
             let args_filter_only =
                   poplist ''logscale'' (poplist ''layer'' (poplist ''key''
                     (poplist ''method'' (req_values request))));
                 layer = md_get (req_values request) ''layer'' ''X'';
                 logscale = (md_get (req_values request) ''logscale'' ''false'' = ''true'')
             in (case query_parameter_to_filter url_unquote float args_filter_only of
                   Inl e \<Rightarrow> (Inl (summary_except e), [Query_hashed raw_query])
                 | Inr flt \<Rightarrow>
                     (case summarize_var summary_method flt query_hash layer logscale of
                        Inl e \<Rightarrow>
                          (Inl (summary_except e),
                           [Query_hashed raw_query,
                            Summarized summary_method query_hash layer logscale])
                      | Inr fbs \<Rightarrow>
                          (Inr \<lparr>body = Data fbs, status = OK,
                                content_type = Some ''application/octet-stream''\<rparr>,
                           [Query_hashed raw_query,
                            Summarized summary_method query_hash layer logscale]))))"



definition summarize_var_get ::
  "(string \<Rightarrow> string) \<Rightarrow> (string \<Rightarrow> string + 'f) \<Rightarrow> (string \<Rightarrow> string) \<Rightarrow> 'f summarize_var
     \<Rightarrow> request \<Rightarrow> string \<Rightarrow> (exn + response) \<times> summary_event list" where
  "summarize_var_get url_unquote float summarizeQueryHash summarize_var request query_string =
     summarize_var_helper url_unquote float summarizeQueryHash summarize_var request None query_string"


subsection \<open>Properties of the POST variant\<close>



section \<open>The schema document\<close>

text \<open>
  \<^verbatim>\<open>schema_get_helper(data_adaptor)\<close> builds the schema as a dict, which the model
  keeps as a JSON object. Of the dataset (\<^verbatim>\<open>data_adaptor.data\<close>, an AnnData) it reads
  whether there is a raw layer, the keys of \<^verbatim>\<open>layers\<close>, the dtype of \<^verbatim>\<open>X\<close> and
  the columns of the \<^verbatim>\<open>var\<close> and \<^verbatim>\<open>obs\<close> frames, each a name with its array.

  \<^verbatim>\<open>get_schema_type_hint_of_array\<close> (not among the sources), \<^verbatim>\<open>pickle.load\<close> and
  \<^verbatim>\<open>glob\<close> are parameters: the hint is a dict or an exception, unpickling gives the
  columns of the stored label frame, and \<open>glob st pattern\<close> lists the paths of the
  store that match.
\<close>

record 'a anndata =
  raw :: "unit option"
  layer_keys :: "string list"
  X_dtype :: string
  var_frame :: "(string \<times> 'a) list"
  obs_frame :: "(string \<times> 'a) list"

record 'a schema_adaptor =
  data :: "'a anndata"
  cell_count :: nat
  gene_count :: nat
  parameters :: "string \<rightharpoonup> json"

text \<open>The first lines of the helper: the list of layers.\<close>

definition schema_layers :: "'a anndata \<Rightarrow> string list" where
  "schema_layers d =
     (let layers = (if raw d \<noteq> None then [''.raw''] @ layer_keys d else layer_keys d)
      in if ''X'' \<notin> set layers then [''X''] @ layers else layers)"

text \<open>\<^verbatim>\<open>dict.update(other)\<close>, key by key, and \<^verbatim>\<open>parameters.get(key)\<close>.\<close>

definition dict_update :: "(string \<times> json) list \<Rightarrow> (string \<times> json) list \<Rightarrow> (string \<times> json) list" where
  "dict_update d other = fold (\<lambda>kv acc. AList.update (fst kv) (snd kv) acc) other d"

definition get_or_None :: "(string \<rightharpoonup> json) \<Rightarrow> string \<Rightarrow> json" where
  "get_or_None m key = (case m key of None \<Rightarrow> JNull | Some v \<Rightarrow> v)"

text \<open>
  The schema of one annotation column: name and \<^verbatim>\<open>writable\<close>, then the type hint,
  then \<^verbatim>\<open>writable\<close> again unless the type is categorical.
\<close>

definition ann_schema ::
  "('a \<Rightarrow> exn + (string \<times> json) list) \<Rightarrow> string \<times> 'a \<Rightarrow> exn + json" where
  "ann_schema get_schema_type_hint_of_array col =
     (case get_schema_type_hint_of_array (snd col) of
        Inl e \<Rightarrow> Inl e
      | Inr hint \<Rightarrow>
          let s = dict_update [(''name'', JStr (fst col)), (''writable'', JBool True)] hint
          in (case map_of s ''type'' of
                None \<Rightarrow> Inl (KeyError ''type'')
              | Some t \<Rightarrow>
                  Inr (JObj (if t \<noteq> JStr ''categorical''
                             then AList.update ''writable'' (JBool False) s else s))))"

fun ann_schemas ::
  "('a \<Rightarrow> exn + (string \<times> json) list) \<Rightarrow> (string \<times> 'a) list \<Rightarrow> exn + json list" where
  "ann_schemas hint [] = Inr []"
| "ann_schemas hint (col # cols) =
     (case ann_schema hint col of
        Inl e \<Rightarrow> Inl e
      | Inr s \<Rightarrow>
          (case ann_schemas hint cols of
             Inl e \<Rightarrow> Inl e
           | Inr ss \<Rightarrow> Inr (s # ss)))"

text \<open>
  The \<^verbatim>\<open>obs\<close> columns: those of the user's pickled label frame, then the column
  \<^verbatim>\<open>name_0\<close> of the dataset's own \<^verbatim>\<open>obs\<close> frame.
\<close>

definition obs_columns ::
  "('a \<Rightarrow> exn + (string \<times> json) list) \<Rightarrow> (string \<Rightarrow> exn + (string \<times> 'a) list) \<Rightarrow> string
     \<Rightarrow> 'a schema_adaptor \<Rightarrow> store \<Rightarrow> exn + json list" where
  "obs_columns hint unpickle userID data_adaptor st =
     (case files st (userID @ ''/obs.p'') of
        None \<Rightarrow> Inl OSError
      | Some pickled \<Rightarrow>
     (case unpickle pickled of
        Inl e \<Rightarrow> Inl e
      | Inr curr_axis \<Rightarrow>
     (case ann_schemas hint curr_axis of
        Inl e \<Rightarrow> Inl e
      | Inr cols \<Rightarrow>
     (case map_of (obs_frame (data data_adaptor)) ''name_0'' of
        None \<Rightarrow> Inl (KeyError ''name_0'')
      | Some arr \<Rightarrow>
     (case ann_schema hint (''name_0'', arr) of
        Inl e \<Rightarrow> Inl e
      | Inr s \<Rightarrow> Inr (cols @ [s]))))))"

text \<open>
  \<^verbatim>\<open>str.split(sep)\<close> for a separator of any length, scanning from the left. Python
  raises on the empty separator; the helper's separator ends in \<^verbatim>\<open>/emb/\<close>.
\<close>

function str_split_sep :: "string \<Rightarrow> string \<Rightarrow> string list" where
  "str_split_sep sep s =
     (if s = [] then [[]]
      else if sep \<noteq> [] \<and> prefix sep s then [] # str_split_sep sep (drop (length sep) s)
      else (case str_split_sep sep (tl s) of
              [] \<Rightarrow> [[hd s]]
            | p # ps \<Rightarrow> (hd s # p) # ps))"
  by pat_completeness auto
termination
  by (relation "measure (\<lambda>p. length (snd p))") auto

declare str_split_sep.simps [simp del]

text \<open>\<^verbatim>\<open>x.split(f"{userID}/emb/")[-1][:-2]\<close> and the layout entry made of it.\<close>

definition layout_name :: "string \<Rightarrow> string \<Rightarrow> string" where
  "layout_name userID x =
     (let piece = last (str_split_sep (userID @ ''/emb/'') x)
      in take (length piece - 2) piece)"

definition layout_schema :: "string \<Rightarrow> json" where
  "layout_schema layout =
     JObj [(''name'', JStr layout), (''type'', JStr ''float32''),
           (''dims'', JArr [JStr (layout @ ''_0''), JStr (layout @ ''_1'')])]"

text \<open>
  Modelled from the spec: the enum \<^verbatim>\<open>Axis\<close> is not among the sources. The loop
  \<^verbatim>\<open>for ax in Axis\<close> visits the spec's two axes, \<^verbatim>\<open>obs\<close> then \<^verbatim>\<open>var\<close>, so the
  \<^verbatim>\<open>obs\<close> columns are built, and can fail, first.
\<close>

definition schema_get_helper ::
  "('a \<Rightarrow> exn + (string \<times> json) list) \<Rightarrow> (string \<Rightarrow> exn + (string \<times> 'a) list)
     \<Rightarrow> (store \<Rightarrow> string \<Rightarrow> string list) \<Rightarrow> string \<Rightarrow> 'a schema_adaptor \<Rightarrow> store \<Rightarrow> exn + json" where
  "schema_get_helper hint unpickle glob userID data_adaptor st =
     (let layers = schema_layers (data data_adaptor) in
      (case obs_columns hint unpickle userID data_adaptor st of
         Inl e \<Rightarrow> Inl e
       | Inr obs_cols \<Rightarrow>
      (case ann_schemas hint (var_frame (data data_adaptor)) of
         Inl e \<Rightarrow> Inl e
       | Inr var_cols \<Rightarrow>
           Inr (JObj
             [(''dataframe'',
                 JObj [(''nObs'', JInt (int (cell_count data_adaptor))),
                       (''nVar'', JInt (int (gene_count data_adaptor))),
                       (''type'', JStr (X_dtype (data data_adaptor)))]),
              (''annotations'',
                 JObj [(''obs'', JObj [(''index'', get_or_None (parameters data_adaptor) ''obs_names''),
                                       (''columns'', JArr obs_cols)]),
                       (''var'', JObj [(''index'', get_or_None (parameters data_adaptor) ''var_names''),
                                       (''columns'', JArr var_cols)])]),
              (''layout'',
                 JObj [(''obs'', JArr (map (\<lambda>x. layout_schema (layout_name userID x))
                                        (glob st (userID @ ''/emb/*.p''))))]),
              (''layers'', JArr (map JStr layers))]))))"

text \<open>
  A sample dataset for the concrete instances: a raw layer, one declared layer
  \<^verbatim>\<open>counts\<close>, and arrays that stand for their own type.
\<close>

definition sample_dataset :: "string schema_adaptor" where
  "sample_dataset =
     \<lparr>data = \<lparr>raw = Some (), layer_keys = [''counts''], X_dtype = ''float32'',
              var_frame = [(''name_0'', ''string'')], obs_frame = [(''name_0'', ''string'')]\<rparr>,
      cell_count = 2, gene_count = 3, parameters = Map.empty\<rparr>"

definition sample_hint :: "string \<Rightarrow> exn + (string \<times> json) list" where
  "sample_hint arr = Inr [(''type'', JStr arr)]"

definition sample_unpickle :: "string \<Rightarrow> exn + (string \<times> string) list" where
  "sample_unpickle pickled = Inr [(''louvain'', ''categorical'')]"

definition sample_glob :: "store \<Rightarrow> string \<Rightarrow> string list" where
  "sample_glob st pattern = [''u1/emb/umap.p'']"

subsection \<open>Properties of the layer list\<close>

lemma schema_get_helper_layers:
  assumes "schema_get_helper hint unpickle glob userID data_adaptor st = Inr schema"
  shows "py_getitem schema ''layers'' = Inr (JArr (map JStr (schema_layers (data data_adaptor))))"
  using assms
  by (auto simp: schema_get_helper_def Let_def split: sum.splits)

lemma schema_layers_X: "''X'' \<in> set (schema_layers d)"
  by (simp add: schema_layers_def Let_def)

lemma schema_layers_raw:
  assumes "raw d \<noteq> None"
  shows "(''X'' \<in> set (layer_keys d) \<and> schema_layers d = ''.raw'' # layer_keys d) \<or>
         (''X'' \<notin> set (layer_keys d) \<and> schema_layers d = ''X'' # ''.raw'' # layer_keys d)"
  using assms by (auto simp: schema_layers_def Let_def)

text \<open>
  Claim C2, as amended. Whenever the helper returns a schema, its \<^verbatim>\<open>layers\<close> entry
  lists \<^verbatim>\<open>X\<close>, declared or not. When the dataset has a raw layer, \<^verbatim>\<open>.raw\<close> stands
  directly before the declared layers: it is the first entry when \<^verbatim>\<open>X\<close> is declared,
  and the second, after the added \<^verbatim>\<open>X\<close>, when it is not.
\<close>

theorem schema_lists_X_and_raw:
  assumes "schema_get_helper hint unpickle glob userID data_adaptor st = Inr schema"
  shows "\<exists>layers. py_getitem schema ''layers'' = Inr (JArr (map JStr layers)) \<and>
           ''X'' \<in> set layers \<and>
           (raw (data data_adaptor) \<noteq> None \<longrightarrow>
              (''X'' \<in> set (layer_keys (data data_adaptor)) \<and>
               layers = ''.raw'' # layer_keys (data data_adaptor)) \<or>
              (''X'' \<notin> set (layer_keys (data data_adaptor)) \<and>
               layers = ''X'' # ''.raw'' # layer_keys (data data_adaptor)))"
proof (intro exI conjI impI)
  show "py_getitem schema ''layers''
      = Inr (JArr (map JStr (schema_layers (data data_adaptor))))"
    using assms by (rule schema_get_helper_layers)
  show "''X'' \<in> set (schema_layers (data data_adaptor))"
    by (rule schema_layers_X)
  assume "raw (data data_adaptor) \<noteq> None"
  then show "(''X'' \<in> set (layer_keys (data data_adaptor)) \<and>
       schema_layers (data data_adaptor) = ''.raw'' # layer_keys (data data_adaptor)) \<or>
      (''X'' \<notin> set (layer_keys (data data_adaptor)) \<and>
       schema_layers (data data_adaptor) = ''X'' # ''.raw'' # layer_keys (data data_adaptor))"
    by (rule schema_layers_raw)
qed

lemma sample_schema:
  "\<exists>obs_cols var_cols layout.
     schema_get_helper sample_hint sample_unpickle sample_glob ''u1'' sample_dataset sample_store
       = Inr (JObj [(''dataframe'',
                 JObj [(''nObs'', JInt 2), (''nVar'', JInt 3), (''type'', JStr ''float32'')]),
              (''annotations'',
                 JObj [(''obs'', JObj [(''index'', JNull), (''columns'', JArr obs_cols)]),
                       (''var'', JObj [(''index'', JNull), (''columns'', JArr var_cols)])]),
              (''layout'', JObj [(''obs'', JArr layout)]),
              (''layers'', JArr [JStr ''X'', JStr ''.raw'', JStr ''counts''])])"
  by (simp add: schema_get_helper_def obs_columns_def ann_schema_def sample_hint_def
        sample_unpickle_def sample_dataset_def sample_store_def schema_layers_def
        dict_update_def get_or_None_def Let_def)

text \<open>The schema of the sample dataset.\<close>

theorem schema_lists_X_and_raw_witness:
  "\<exists>layers. py_getitem (projr (schema_get_helper sample_hint sample_unpickle sample_glob ''u1''
                 sample_dataset sample_store)) ''layers'' = Inr (JArr (map JStr layers)) \<and>
     ''X'' \<in> set layers \<and> layers = [''X'', ''.raw'', ''counts'']"
proof -
  from sample_schema obtain schema where
    s: "schema_get_helper sample_hint sample_unpickle sample_glob ''u1'' sample_dataset sample_store
        = Inr schema" by blast
  have r: "raw (data sample_dataset) \<noteq> None" "layer_keys (data sample_dataset) = [''counts'']"
    by (simp_all add: sample_dataset_def)
  from schema_lists_X_and_raw[OF s] r show ?thesis
    by (auto simp: s)
qed

text \<open>
  Claim C2 as the spec states it fails: the sample dataset has a raw layer and does not
  declare \<^verbatim>\<open>X\<close>, and its schema lists \<^verbatim>\<open>X\<close> first, \<^verbatim>\<open>.raw\<close> second.
\<close>

theorem schema_raw_not_first_counterexample:
  "raw (data sample_dataset) = Some () \<and>
   \<not> isl (schema_get_helper sample_hint sample_unpickle sample_glob ''u1'' sample_dataset
            sample_store) \<and>
   py_getitem (projr (schema_get_helper sample_hint sample_unpickle sample_glob ''u1''
                 sample_dataset sample_store)) ''layers''
     = Inr (JArr [JStr ''X'', JStr ''.raw'', JStr ''counts''])"
proof -
  from sample_schema obtain obs_cols var_cols layout where
    "schema_get_helper sample_hint sample_unpickle sample_glob ''u1'' sample_dataset sample_store
       = Inr (JObj [(''dataframe'',
                 JObj [(''nObs'', JInt 2), (''nVar'', JInt 3), (''type'', JStr ''float32'')]),
              (''annotations'',
                 JObj [(''obs'', JObj [(''index'', JNull), (''columns'', JArr obs_cols)]),
                       (''var'', JObj [(''index'', JNull), (''columns'', JArr var_cols)])]),
              (''layout'', JObj [(''obs'', JArr layout)]),
              (''layers'', JArr [JStr ''X'', JStr ''.raw'', JStr ''counts''])])"
    by blast
  then show ?thesis by (simp add: sample_dataset_def)
qed

end
